theory Spec2Isabelle
  imports Complex_Main
begin

section \<open>Values of a numeric column\<close>

text \<open>
  The columns of the data frame hold double-precision numbers. A cell is a finite
  number, one of the two infinities, or NaN, which is also the marker of a missing
  value. The special values follow the arithmetic of the machine: a NaN operand gives
  NaN, \<open>inf - inf\<close>, \<open>0 * inf\<close>, \<open>0 / 0\<close> and \<open>inf / inf\<close> give NaN, a non-zero number
  divided by zero gives an infinity, and a finite result beyond the largest double
  \<open>max_double\<close> overflows to an infinity. Within that range a result is taken
  exactly: the rounding of the machine and the sign of zero are not modelled, so a
  number of the model can differ from the machine's in its last bits.
\<close>

datatype fval = Fin real | PInf | NInf | NaN

text \<open>The largest finite double, \<open>(2 - 2 ^ -52) * 2 ^ 1023\<close>.\<close>

definition max_double :: real where
  "max_double = (2 - 1 / 2 ^ 52) * 2 ^ 1023"

text \<open>
  The result of a finite operation: an infinity when it overflows. (The machine rounds
  before it compares, so a result less than half a unit in the last place beyond
  \<open>max_double\<close> is still finite there; the statements below keep away from that edge.)
\<close>

definition fin :: "real \<Rightarrow> fval" where
  "fin x = (if max_double < x then PInf else if x < - max_double then NInf else Fin x)"

text \<open>A finite cell of the input is a double: its magnitude is within the range.\<close>

fun isdouble :: "fval \<Rightarrow> bool" where
  "isdouble (Fin a) = (\<bar>a\<bar> \<le> max_double)"
| "isdouble v = True"

fun fneg :: "fval \<Rightarrow> fval" where
  "fneg (Fin a) = Fin (- a)"
| "fneg PInf = NInf"
| "fneg NInf = PInf"
| "fneg NaN = NaN"

fun fadd :: "fval \<Rightarrow> fval \<Rightarrow> fval" where
  "fadd (Fin a) (Fin b) = fin (a + b)"
| "fadd (Fin a) PInf = PInf"
| "fadd (Fin a) NInf = NInf"
| "fadd PInf (Fin b) = PInf"
| "fadd PInf PInf = PInf"
| "fadd PInf NInf = NaN"
| "fadd NInf (Fin b) = NInf"
| "fadd NInf NInf = NInf"
| "fadd NInf PInf = NaN"
| "fadd NaN b = NaN"
| "fadd a NaN = NaN"

definition fsub :: "fval \<Rightarrow> fval \<Rightarrow> fval" where
  "fsub a b = fadd a (fneg b)"

fun fmul :: "fval \<Rightarrow> fval \<Rightarrow> fval" where
  "fmul (Fin a) (Fin b) = fin (a * b)"
| "fmul (Fin a) PInf = (if a = 0 then NaN else if 0 < a then PInf else NInf)"
| "fmul (Fin a) NInf = (if a = 0 then NaN else if 0 < a then NInf else PInf)"
| "fmul PInf (Fin b) = (if b = 0 then NaN else if 0 < b then PInf else NInf)"
| "fmul NInf (Fin b) = (if b = 0 then NaN else if 0 < b then NInf else PInf)"
| "fmul PInf PInf = PInf"
| "fmul PInf NInf = NInf"
| "fmul NInf PInf = NInf"
| "fmul NInf NInf = PInf"
| "fmul NaN b = NaN"
| "fmul a NaN = NaN"

fun fdiv :: "fval \<Rightarrow> fval \<Rightarrow> fval" where
  "fdiv (Fin a) (Fin b) =
     (if b = 0 then (if a = 0 then NaN else if 0 < a then PInf else NInf)
      else fin (a / b))"
| "fdiv (Fin a) PInf = Fin 0"
| "fdiv (Fin a) NInf = Fin 0"
| "fdiv PInf (Fin b) = (if 0 \<le> b then PInf else NInf)"
| "fdiv NInf (Fin b) = (if 0 \<le> b then NInf else PInf)"
| "fdiv PInf PInf = NaN"
| "fdiv PInf NInf = NaN"
| "fdiv NInf PInf = NaN"
| "fdiv NInf NInf = NaN"
| "fdiv NaN b = NaN"
| "fdiv a NaN = NaN"

fun fsqrt :: "fval \<Rightarrow> fval" where
  "fsqrt (Fin a) = (if a < 0 then NaN else Fin (sqrt a))"
| "fsqrt PInf = PInf"
| "fsqrt NInf = NaN"
| "fsqrt NaN = NaN"

text \<open>Comparisons: every comparison with NaN is false.\<close>

fun flt :: "fval \<Rightarrow> fval \<Rightarrow> bool" where
  "flt (Fin a) (Fin b) = (a < b)"
| "flt (Fin a) PInf = True"
| "flt NInf (Fin b) = True"
| "flt NInf PInf = True"
| "flt a b = False"

definition fgt :: "fval \<Rightarrow> fval \<Rightarrow> bool" where
  "fgt a b = flt b a"

definition isna :: "fval \<Rightarrow> bool" where
  "isna v = (v = NaN)"

definition isinf :: "fval \<Rightarrow> bool" where
  "isinf v = (v = PInf \<or> v = NInf)"

fun isfinite :: "fval \<Rightarrow> bool" where
  "isfinite (Fin a) = True"
| "isfinite v = False"

definition fsum :: "fval list \<Rightarrow> fval" where
  "fsum xs = foldl fadd (Fin 0) xs"

section \<open>Column operations of the data-frame library\<close>

text \<open>
  \<open>shift\<close> moves a column down by \<open>periods\<close> rows and fills the top with NaN.
\<close>

definition shift :: "nat \<Rightarrow> fval list \<Rightarrow> fval list" where
  "shift periods xs =
     replicate (min periods (length xs)) NaN @ take (length xs - periods) xs"

text \<open>
  \<open>pct_change\<close> is \<open>data / data.shift(periods) - 1\<close>. The library may first carry
  the last valid value forward over missing cells; the observations reaching the
  transform have had their missing values dropped (line 151), so that step has nothing
  to act on and the column is taken as it is.
\<close>

definition pct_change :: "nat \<Rightarrow> fval list \<Rightarrow> fval list" where
  "pct_change periods xs =
     map (\<lambda>(d, s). fsub (fdiv d s) (Fin 1)) (zip xs (shift periods xs))"

definition times100 :: "fval list \<Rightarrow> fval list" where
  "times100 xs = map (\<lambda>x. fmul x (Fin 100)) xs"

text \<open>
  \<open>rolling(window, min_periods).mean()\<close>: the library first turns the infinite cells
  of the column into NaN; at row \<open>i\<close> the window is the rows
  \<open>max 0 (i + 1 - window) .. i\<close>; missing cells do not count; the mean is the sum of
  the counted cells over their number, and is missing when fewer than \<open>min_periods\<close>
  cells count (or none does). The window is summed directly here; the library keeps a
  running sum of the window, which is the same number up to rounding.
\<close>

definition prep_values :: "fval list \<Rightarrow> fval list" where
  "prep_values xs = map (\<lambda>v. if isinf v then NaN else v) xs"

definition window_at :: "nat \<Rightarrow> fval list \<Rightarrow> nat \<Rightarrow> fval list" where
  "window_at window xs i = take (Suc i - (Suc i - window)) (drop (Suc i - window) xs)"

definition rolling_mean :: "nat \<Rightarrow> nat \<Rightarrow> fval list \<Rightarrow> fval list" where
  "rolling_mean window min_periods xs =
     (let values = prep_values xs
      in map (\<lambda>i. let obs = filter (\<lambda>v. \<not> isna v) (window_at window values i)
                   in if min_periods \<le> length obs \<and> obs \<noteq> []
                      then fdiv (fsum obs) (Fin (real (length obs))) else NaN)
             [0..<length xs])"

text \<open>
  \<open>Series.mean()\<close>: the sum of the non-missing cells over their count. The machine
  rounds the sum and the quotient, so its mean of equal values can differ from that
  value in the last bits; the model's mean does not.
\<close>

definition mean :: "fval list \<Rightarrow> fval" where
  "mean xs = (let obs = filter (\<lambda>v. \<not> isna v) xs
              in fdiv (fsum obs) (Fin (real (length obs))))"

text \<open>
  \<open>Series.std()\<close>: the sample standard deviation (one degree of freedom removed) of
  the non-missing cells, missing when at most one cell counts. For two or more cells the
  machine's result carries the rounding of its mean: where the model has a standard
  deviation of exactly zero, the machine may have a tiny positive one. Nothing below
  is stated about the z-score of such a series.
\<close>

definition var :: "fval list \<Rightarrow> fval" where
  "var xs = (let obs = filter (\<lambda>v. \<not> isna v) xs;
                 avg = fdiv (fsum obs) (Fin (real (length obs)))
             in if length obs \<le> 1 then NaN
                else fdiv (fsum (map (\<lambda>v. fmul (fsub avg v) (fsub avg v)) obs))
                          (Fin (real (length obs - 1))))"

definition std :: "fval list \<Rightarrow> fval" where
  "std xs = fsqrt (var xs)"

text \<open>
  \<open>Series.rank(pct=True)\<close>: the rank of a cell among the non-missing cells, counted
  from 1, equal cells sharing the average of their positions, divided by the number of
  non-missing cells. A missing cell has a missing rank.
\<close>

definition avg_rank :: "fval list \<Rightarrow> fval \<Rightarrow> real" where
  "avg_rank xs v =
     real (length (filter (\<lambda>x. flt x v) xs))
       + (real (length (filter (\<lambda>x. x = v) xs)) + 1) / 2"

definition rank_pct :: "fval list \<Rightarrow> fval list" where
  "rank_pct xs =
     (let obs = filter (\<lambda>v. \<not> isna v) xs
      in map (\<lambda>v. if isna v then NaN
                   else fdiv (Fin (avg_rank obs v)) (Fin (real (length obs)))) xs)"

text \<open>\<open>replace([inf, -inf], nan)\<close> on one cell.\<close>

definition replace_inf :: "fval \<Rightarrow> fval" where
  "replace_inf v = (if v = PInf \<or> v = NInf then NaN else v)"

section \<open>The transform\<close>

record observation =
  observation_date :: int
  obs_value :: fval
  series_id :: string

record enriched = observation +
  mom_change :: fval
  yoy_change :: fval
  rolling_avg_3m :: fval
  rolling_avg_12m :: fval
  z_score :: fval
  percentile_rank :: fval

text \<open>The derived columns, each computed from the value column of the sorted frame.\<close>

definition mom_change_col :: "fval list \<Rightarrow> fval list" where
  "mom_change_col vs = times100 (pct_change 1 vs)"

definition yoy_change_col :: "fval list \<Rightarrow> fval list" where
  "yoy_change_col vs =
     (if 12 < length vs then times100 (pct_change 12 vs)
      else times100 (pct_change 4 vs))"

definition z_score_col :: "fval list \<Rightarrow> fval list" where
  "z_score_col vs =
     (let mean_val = mean vs; std_val = std vs
      in if fgt std_val (Fin 0)
         then map (\<lambda>v. fdiv (fsub v mean_val) std_val) vs
         else replicate (length vs) (Fin 0))"

definition percentile_rank_col :: "fval list \<Rightarrow> fval list" where
  "percentile_rank_col vs = times100 (rank_pct vs)"

definition enrich :: "observation list \<Rightarrow> enriched list" where
  "enrich df =
     (let vs = map obs_value df;
          mom = mom_change_col vs;
          yoy = yoy_change_col vs;
          r3 = rolling_mean 3 1 vs;
          r12 = rolling_mean 12 1 vs;
          z = z_score_col vs;
          pr = percentile_rank_col vs
      in map (\<lambda>i. \<lparr>observation_date = observation_date (df ! i),
                    obs_value = obs_value (df ! i),
                    series_id = series_id (df ! i),
                    mom_change = mom ! i,
                    yoy_change = yoy ! i,
                    rolling_avg_3m = r3 ! i,
                    rolling_avg_12m = r12 ! i,
                    z_score = z ! i,
                    percentile_rank = pr ! i\<rparr>)
             [0..<length df])"

definition replace_inf_row :: "enriched \<Rightarrow> enriched" where
  "replace_inf_row r =
     r\<lparr>obs_value := replace_inf (obs_value r),
       mom_change := replace_inf (mom_change r),
       yoy_change := replace_inf (yoy_change r),
       rolling_avg_3m := replace_inf (rolling_avg_3m r),
       rolling_avg_12m := replace_inf (rolling_avg_12m r),
       z_score := replace_inf (z_score r),
       percentile_rank := replace_inf (percentile_rank r)\<rparr>"

text \<open>
  \<open>transform_data\<close>: an absent or empty frame gives \<open>None\<close>; otherwise the frame is
  sorted by date, the six columns are added and the infinities of the whole frame are
  replaced by NaN. The dates of a series are unique, so the sorted order does not depend
  on the sorting algorithm; rows of equal date, if any, are kept in their input order
  here.
\<close>

definition transform_data :: "observation list option \<Rightarrow> enriched list option" where
  "transform_data df =
     (case df of
        None \<Rightarrow> None
      | Some rows \<Rightarrow>
          if rows = [] then None
          else Some (map replace_inf_row (enrich (sort_key observation_date rows))))"

section \<open>The orchestrator\<close>

text \<open>The catalogue of tracked series: identifier, title and category, in order.\<close>

definition indicators :: "(string \<times> string \<times> string) list" where
  "indicators =
     [(''GDP'', ''Gross Domestic Product'', ''Output & Growth''),
      (''INDPRO'', ''Industrial Production Index'', ''Output & Growth''),
      (''UNRATE'', ''Unemployment Rate'', ''Labor Market''),
      (''ICSA'', ''Initial Jobless Claims'', ''Labor Market''),
      (''PAYEMS'', ''Total Nonfarm Payrolls'', ''Labor Market''),
      (''CPIAUCSL'', ''Consumer Price Index'', ''Inflation''),
      (''PCEPI'', ''PCE Price Index'', ''Inflation''),
      (''FEDFUNDS'', ''Federal Funds Rate'', ''Monetary Policy''),
      (''T10Y2Y'', ''10Y-2Y Treasury Spread'', ''Monetary Policy''),
      (''DGS10'', ''10-Year Treasury Rate'', ''Monetary Policy''),
      (''UMCSENT'', ''Consumer Sentiment Index'', ''Consumer''),
      (''RSXFS'', ''Retail Sales'', ''Consumer''),
      (''HOUST'', ''Housing Starts'', ''Housing'')]"

text \<open>
  An exception is a value. The statistics service and the database are outside the
  program: \<open>fetch\<close> is what the service answers for a series (an exception, or the raw
  rows with the series' metadata), \<open>load\<close> is the three database writes of one series
  (an exception or not, and the database after them).
\<close>

datatype exn = KeyError string | Exception string

type_synonym 'info fetcher = "string \<Rightarrow> exn + (observation list \<times> 'info)"

type_synonym ('info, 'db) loader =
  "string \<Rightarrow> 'info \<Rightarrow> string \<Rightarrow> enriched list \<Rightarrow> 'db \<Rightarrow> exn option \<times> 'db"

text \<open>
  \<open>extract_series\<close>: any exception of the service gives \<open>(None, None)\<close>; otherwise
  the rows whose value is missing are dropped.
\<close>

definition extract_series ::
  "'info fetcher \<Rightarrow> string \<Rightarrow> (observation list \<times> 'info) option" where
  "extract_series fetch sid =
     (case fetch sid of
        Inl e \<Rightarrow> None
      | Inr (raw, info) \<Rightarrow> Some (filter (\<lambda>r. \<not> isna (obs_value r)) raw, info))"

text \<open>
  \<open>process_series\<close>: the outcome is \<open>Inr True\<close>, \<open>Inr False\<close>, or an exception
  that leaves the function (\<open>Inl\<close>), together with the database.
\<close>

definition process_series ::
  "'info fetcher \<Rightarrow> ('info, 'db) loader \<Rightarrow> string \<Rightarrow> 'db \<Rightarrow> (exn + bool) \<times> 'db" where
  "process_series fetch load sid db =
     (case map_of indicators sid of
        None \<Rightarrow> (Inl (KeyError sid), db)
      | Some (title, category) \<Rightarrow>
          (case extract_series fetch sid of
             None \<Rightarrow> (Inr False, db)
           | Some (df, info) \<Rightarrow>
               (case transform_data (Some df) of
                  None \<Rightarrow> (Inr False, db)
                | Some df_transformed \<Rightarrow>
                    (case load sid info category df_transformed db of
                       (Some e, db') \<Rightarrow> (Inl e, db')
                     | (None, db') \<Rightarrow> (Inr True, db')))))"

text \<open>
  The loop of \<open>run_full_pipeline\<close> over the identifiers still to do, with the two
  counters and the database: an exception of \<open>process_series\<close> is caught and counted
  as a failure.
\<close>

fun pipeline_loop ::
  "'info fetcher \<Rightarrow> ('info, 'db) loader \<Rightarrow> string list \<Rightarrow> nat \<times> nat \<Rightarrow> 'db
     \<Rightarrow> (nat \<times> nat) \<times> 'db" where
  "pipeline_loop fetch load [] (success_count, fail_count) db =
     ((success_count, fail_count), db)"
| "pipeline_loop fetch load (sid # rest) (success_count, fail_count) db =
     (case process_series fetch load sid db of
        (Inr True, db') \<Rightarrow> pipeline_loop fetch load rest (success_count + 1, fail_count) db'
      | (Inr False, db') \<Rightarrow> pipeline_loop fetch load rest (success_count, fail_count + 1) db'
      | (Inl e, db') \<Rightarrow> pipeline_loop fetch load rest (success_count, fail_count + 1) db')"

definition run_full_pipeline ::
  "'info fetcher \<Rightarrow> ('info, 'db) loader \<Rightarrow> 'db \<Rightarrow> (nat \<times> nat) \<times> 'db" where
  "run_full_pipeline fetch load db = pipeline_loop fetch load (map fst indicators) (0, 0) db"

section \<open>Notions of the specification\<close>


text \<open>A number as it is printed with two decimals.\<close>

definition round_2dp :: "real \<Rightarrow> real" where
  "round_2dp x = real_of_int (round (x * 100)) / 100"

text \<open>An observation of the series \<open>GDP\<close>, for the concrete instances below.\<close>

definition obs :: "int \<Rightarrow> fval \<Rightarrow> observation" where
  "obs d v = \<lparr>observation_date = d, obs_value = v, series_id = ''GDP''\<rparr>"

text \<open>
  One cell of \<open>pct_change(periods) * 100\<close>: the percent change of \<open>d\<close> from the
  base \<open>s\<close>.
\<close>

definition percent_change :: "fval \<Rightarrow> fval \<Rightarrow> fval" where
  "percent_change d s = fmul (fsub (fdiv d s) (Fin 1)) (Fin 100)"

text \<open>The six derived cells of a row.\<close>

definition derived_fields :: "enriched \<Rightarrow> fval list" where
  "derived_fields r =
     [mom_change r, yoy_change r, rolling_avg_3m r, rolling_avg_12m r,
      z_score r, percentile_rank r]"

section \<open>Basic facts about the columns\<close>

lemma max_double_ge: "1000000 \<le> max_double"
proof -
  have a: "(1::real) \<le> 2 - 1 / 2 ^ 52" by simp
  have "(2::real) ^ 20 \<le> 2 ^ 1023" by (rule power_increasing) simp_all
  then have b: "(1000000::real) \<le> 2 ^ 1023" by simp
  have "1 * (1000000::real) \<le> (2 - 1 / 2 ^ 52) * 2 ^ 1023"
    by (rule mult_mono [OF a b]) simp_all
  then show ?thesis by (simp add: max_double_def)
qed

lemma max_double_pos: "0 < max_double"
  using max_double_ge by linarith

lemma fin_Fin: "\<bar>x\<bar> \<le> max_double \<Longrightarrow> fin x = Fin x"
  by (auto simp: fin_def)

lemma fin_small [simp]: "\<bar>x\<bar> \<le> 1000000 \<Longrightarrow> fin x = Fin x"
  using max_double_ge by (intro fin_Fin) linarith

lemma fin_not_NaN [simp]: "fin x \<noteq> NaN"
  by (simp add: fin_def)

lemma isdouble_small [simp]: "\<bar>x\<bar> \<le> 1000000 \<Longrightarrow> isdouble (Fin x)"
  using max_double_ge by simp

lemma flt_irrefl [simp]: "\<not> flt v v"
  by (cases v) simp_all

lemma fadd_NaN_right [simp]: "fadd a NaN = NaN"
  by (cases a) simp_all

lemma fmul_NaN_right [simp]: "fmul a NaN = NaN"
  by (cases a) simp_all

lemma fdiv_NaN_right [simp]: "fdiv a NaN = NaN"
  by (cases a) simp_all

lemma length_shift: "length (shift p xs) = length xs"
  by (simp add: shift_def)

lemma shift_nth:
  "i < length xs \<Longrightarrow> shift p xs ! i = (if i < p then NaN else xs ! (i - p))"
  by (auto simp: shift_def nth_append)

lemma length_pct_change: "length (pct_change p xs) = length xs"
  by (simp add: pct_change_def length_shift)

lemma pct_change_nth:
  "i < length xs \<Longrightarrow>
   pct_change p xs ! i =
     (if i < p then NaN else fsub (fdiv (xs ! i) (xs ! (i - p))) (Fin 1))"
  by (simp add: pct_change_def length_shift shift_nth fsub_def)

lemma length_times100: "length (times100 xs) = length xs"
  by (simp add: times100_def)

lemma length_mom_change_col: "length (mom_change_col vs) = length vs"
  by (simp add: mom_change_col_def length_times100 length_pct_change)

lemma length_yoy_change_col: "length (yoy_change_col vs) = length vs"
  by (simp add: yoy_change_col_def length_times100 length_pct_change)

lemma length_rolling_mean: "length (rolling_mean w m vs) = length vs"
  by (simp add: rolling_mean_def Let_def)

lemma length_z_score_col: "length (z_score_col vs) = length vs"
  by (simp add: z_score_col_def Let_def)

lemma length_rank_pct: "length (rank_pct vs) = length vs"
  by (simp add: rank_pct_def Let_def)

lemma length_percentile_rank_col: "length (percentile_rank_col vs) = length vs"
  by (simp add: percentile_rank_col_def length_times100 length_rank_pct)

lemma length_enrich: "length (enrich df) = length df"
  by (simp add: enrich_def Let_def)

lemma enrich_nth:
  "i < length df \<Longrightarrow>
   enrich df ! i =
     \<lparr>observation_date = observation_date (df ! i),
      obs_value = obs_value (df ! i),
      series_id = series_id (df ! i),
      mom_change = mom_change_col (map obs_value df) ! i,
      yoy_change = yoy_change_col (map obs_value df) ! i,
      rolling_avg_3m = rolling_mean 3 1 (map obs_value df) ! i,
      rolling_avg_12m = rolling_mean 12 1 (map obs_value df) ! i,
      z_score = z_score_col (map obs_value df) ! i,
      percentile_rank = percentile_rank_col (map obs_value df) ! i\<rparr>"
  by (simp add: enrich_def Let_def)

lemma transform_data_Some:
  "rows \<noteq> [] \<Longrightarrow>
   transform_data (Some rows) =
     Some (map replace_inf_row (enrich (sort_key observation_date rows)))"
  by (simp add: transform_data_def)

section \<open>Row count\<close>

text \<open>
  Claim C3. For every non-empty sequence of observations the transform returns a frame,
  and that frame has exactly as many rows as the input: no row is dropped or added.
\<close>

theorem transform_data_row_count:
  "rows \<noteq> [] \<Longrightarrow>
   \<exists>out. transform_data (Some rows) = Some out \<and> length out = length rows"
  by (simp add: transform_data_Some length_enrich)

theorem transform_data_row_count_witness:
  "[obs 2 (Fin 110), obs 1 (Fin 100)] \<noteq> [] \<and>
   (\<exists>out. transform_data (Some [obs 2 (Fin 110), obs 1 (Fin 100)]) = Some out
      \<and> length out = 2)"
  using transform_data_row_count [of "[obs 2 (Fin 110), obs 1 (Fin 100)]"]
  by (simp add: numeral_2_eq_2)

section \<open>The replacement of infinities\<close>

lemma replace_inf_not_isinf: "\<not> isinf (replace_inf v)"
  by (simp add: replace_inf_def isinf_def)

lemma replace_inf_isinf: "isinf v \<Longrightarrow> replace_inf v = NaN"
  by (simp add: replace_inf_def isinf_def)

lemma replace_inf_Fin [simp]: "replace_inf (Fin a) = Fin a"
  by (simp add: replace_inf_def)

lemma replace_inf_NaN [simp]: "replace_inf NaN = NaN"
  by (simp add: replace_inf_def)

lemma derived_fields_replace_inf_row:
  "derived_fields (replace_inf_row r) = map replace_inf (derived_fields r)"
  by (simp add: derived_fields_def replace_inf_row_def)

lemma replace_inf_isfinite: "isfinite v \<Longrightarrow> replace_inf v = v"
  by (cases v) (simp_all)

lemma map_observation_date_enrich: "map observation_date (enrich df) = map observation_date df"
  by (rule nth_equalityI) (simp_all add: length_enrich enrich_nth)

lemma map_obs_value_enrich: "map obs_value (enrich df) = map obs_value df"
  by (rule nth_equalityI) (simp_all add: length_enrich enrich_nth)

lemma observation_date_replace_inf_row:
  "observation_date (replace_inf_row r) = observation_date r"
  by (simp add: replace_inf_row_def)

lemma obs_value_replace_inf_row:
  "obs_value (replace_inf_row r) = replace_inf (obs_value r)"
  by (simp add: replace_inf_row_def)

lemma transform_data_dates:
  "rows \<noteq> [] \<Longrightarrow> transform_data (Some rows) = Some out \<Longrightarrow>
   map observation_date out = map observation_date (sort_key observation_date rows)"
proof -
  assume ne: "rows \<noteq> []" and out: "transform_data (Some rows) = Some out"
  let ?df = "sort_key observation_date rows"
  have "out = map replace_inf_row (enrich ?df)"
    using ne out by (simp add: transform_data_Some)
  then have "map observation_date out = map observation_date (enrich ?df)"
    by (simp add: observation_date_replace_inf_row)
  then show ?thesis by (simp only: map_observation_date_enrich)
qed

lemma transform_data_values:
  "rows \<noteq> [] \<Longrightarrow> transform_data (Some rows) = Some out \<Longrightarrow>
   map obs_value out = map replace_inf (map obs_value (sort_key observation_date rows))"
proof -
  assume ne: "rows \<noteq> []" and out: "transform_data (Some rows) = Some out"
  let ?df = "sort_key observation_date rows"
  have "out = map replace_inf_row (enrich ?df)"
    using ne out by (simp add: transform_data_Some)
  then have "map obs_value out = map (\<lambda>r. replace_inf (obs_value r)) (enrich ?df)"
    by (simp add: obs_value_replace_inf_row)
  also have "\<dots> = map replace_inf (map obs_value (enrich ?df))"
    by simp
  finally show ?thesis by (simp only: map_obs_value_enrich)
qed

lemma mom_ex: "mom_change_col [Fin 0, Fin 3, Fin 6] = [NaN, PInf, Fin 100]"
  by (simp add: mom_change_col_def times100_def pct_change_def shift_def fsub_def)

lemma upt3: "[0..<3] = [0, 1, 2]"
  by (simp add: upt_rec)

text \<open>
  Claim C5. No derived cell of the output is positive or negative infinity: each derived
  cell of the output is the computed cell with an infinity replaced by NaN, the marker of
  a missing value.
\<close>

theorem transform_data_no_infinity:
  "rows \<noteq> [] \<Longrightarrow>
   \<exists>out. transform_data (Some rows) = Some out
     \<and> map derived_fields out =
         map (\<lambda>r. map replace_inf (derived_fields r))
           (enrich (sort_key observation_date rows))
     \<and> (\<forall>r \<in> set out. \<forall>v \<in> set (derived_fields r). \<not> isinf v)"
  by (auto simp: transform_data_Some derived_fields_replace_inf_row replace_inf_not_isinf)

theorem transform_data_no_infinity_witness:
  "[obs 2 (Fin 3), obs 1 (Fin 0), obs 3 (Fin 6)] \<noteq> [] \<and>
   (\<exists>out. transform_data (Some [obs 2 (Fin 3), obs 1 (Fin 0), obs 3 (Fin 6)]) = Some out
      \<and> map mom_change (enrich (sort_key observation_date
            [obs 2 (Fin 3), obs 1 (Fin 0), obs 3 (Fin 6)])) = [NaN, PInf, Fin 100]
      \<and> map mom_change out = [NaN, NaN, Fin 100]
      \<and> (\<forall>r \<in> set out. \<forall>v \<in> set (derived_fields r). \<not> isinf v))"
proof -
  let ?rows = "[obs 2 (Fin 3), obs 1 (Fin 0), obs 3 (Fin 6)]"
  have ne: "?rows \<noteq> []" by simp
  from transform_data_no_infinity [OF ne] obtain out where
    out: "transform_data (Some ?rows) = Some out"
    and inf: "\<forall>r \<in> set out. \<forall>v \<in> set (derived_fields r). \<not> isinf v"
    by blast
  have vs: "map obs_value (sort_key observation_date ?rows) = [Fin 0, Fin 3, Fin 6]"
    by (simp add: obs_def)
  have m: "map mom_change (enrich (sort_key observation_date ?rows)) = [NaN, PInf, Fin 100]"
    unfolding enrich_def Let_def vs mom_ex by (simp add: upt3)
  have "out = map replace_inf_row (enrich (sort_key observation_date ?rows))"
    using out by (simp add: transform_data_def)
  then have "map mom_change out = map (replace_inf \<circ> mom_change) (enrich (sort_key observation_date ?rows))"
    by (simp add: replace_inf_row_def comp_def)
  then have mo: "map mom_change out = [NaN, NaN, Fin 100]"
    using m by (simp add: replace_inf_def flip: map_map)
  show ?thesis
  proof (intro conjI exI)
    show "transform_data (Some ?rows) = Some out" by (rule out)
  qed (use ne m mo inf in simp_all)
qed

text \<open>
  Claim C9. The replacement acts on the whole frame. The date column of the output is
  the date column of the input sorted by date, and the value column is the sorted value
  column with every infinity replaced by NaN: when all values are finite it is unchanged,
  and a row whose raw value is infinite has a missing value in the output.
\<close>

theorem transform_data_value_and_date_columns:
  "rows \<noteq> [] \<Longrightarrow>
   \<exists>out. transform_data (Some rows) = Some out
     \<and> map observation_date out = map observation_date (sort_key observation_date rows)
     \<and> map obs_value out = map replace_inf (map obs_value (sort_key observation_date rows))
     \<and> ((\<forall>r \<in> set rows. isfinite (obs_value r)) \<longrightarrow>
          map obs_value out = map obs_value (sort_key observation_date rows))
     \<and> (\<forall>i < length rows. isinf (obs_value (sort_key observation_date rows ! i)) \<longrightarrow>
          obs_value (out ! i) = NaN)"
proof -
  assume ne: "rows \<noteq> []"
  let ?df = "sort_key observation_date rows"
  obtain out where out: "transform_data (Some rows) = Some out"
    using ne by (simp add: transform_data_Some)
  have d: "map observation_date out = map observation_date ?df"
    by (rule transform_data_dates [OF ne out])
  have v: "map obs_value out = map replace_inf (map obs_value ?df)"
    by (rule transform_data_values [OF ne out])
  have f: "map obs_value out = map obs_value ?df" if "\<forall>r \<in> set rows. isfinite (obs_value r)"
    unfolding v using that by (simp add: replace_inf_isfinite)
  have i: "obs_value (out ! i) = NaN"
    if "i < length rows" "isinf (obs_value (?df ! i))" for i
  proof -
    have "obs_value (out ! i) = map obs_value out ! i"
      using that(1) v by (metis length_map length_sort nth_map)
    also have "\<dots> = replace_inf (obs_value (?df ! i))"
      unfolding v using that(1) by simp
    finally show ?thesis using that(2) by (simp add: replace_inf_isinf)
  qed
  show ?thesis
    using out d v f i by blast
qed

theorem transform_data_value_and_date_columns_witness:
  "[obs 2 PInf, obs 1 (Fin 5)] \<noteq> [] \<and>
   (\<exists>out. transform_data (Some [obs 2 PInf, obs 1 (Fin 5)]) = Some out
      \<and> map observation_date out = [1, 2]
      \<and> map obs_value out = [Fin 5, NaN])"
proof -
  let ?rows = "[obs 2 PInf, obs 1 (Fin 5)]"
  have ne: "?rows \<noteq> []" by simp
  have s: "sort_key observation_date ?rows = [obs 1 (Fin 5), obs 2 PInf]"
    by (simp add: obs_def)
  from transform_data_value_and_date_columns [OF ne] obtain out where
    "transform_data (Some ?rows) = Some out"
    "map observation_date out = map observation_date (sort_key observation_date ?rows)"
    "map obs_value out = map replace_inf (map obs_value (sort_key observation_date ?rows))"
    by blast
  then have "transform_data (Some ?rows) = Some out \<and> map observation_date out = [1, 2]
      \<and> map obs_value out = [Fin 5, NaN]"
    unfolding s by (simp add: obs_def replace_inf_def)
  then show ?thesis by (intro conjI exI [of _ out]) simp_all
qed

section \<open>Empty input\<close>

lemma pipeline_loop_counts:
  "pipeline_loop fetch load ids (s, f) db = ((s', f'), db') \<Longrightarrow> s' + f' = s + f + length ids"
proof (induction ids arbitrary: s f db)
  case Nil
  then show ?case by simp
next
  case (Cons sid rest)
  obtain r db1 where p: "process_series fetch load sid db = (r, db1)"
    by (cases "process_series fetch load sid db")
  show ?case
  proof (cases r)
    case (Inl e)
    with Cons.prems p have "pipeline_loop fetch load rest (s, f + 1) db1 = ((s', f'), db')"
      by simp
    from Cons.IH [OF this] show ?thesis by simp
  next
    case (Inr b)
    show ?thesis
    proof (cases b)
      case True
      with Inr Cons.prems p have "pipeline_loop fetch load rest (s + 1, f) db1 = ((s', f'), db')"
        by simp
      from Cons.IH [OF this] show ?thesis by simp
    next
      case False
      with Inr Cons.prems p have "pipeline_loop fetch load rest (s, f + 1) db1 = ((s', f'), db')"
        by simp
      from Cons.IH [OF this] show ?thesis by simp
    qed
  qed
qed

lemma map_of_GDP: "map_of indicators ''GDP'' = Some (''Gross Domestic Product'', ''Output & Growth'')"
  by (simp add: indicators_def)

text \<open>
  Claim C8. For an absent or an empty frame the transform returns \<open>None\<close>, a value
  and not an exception. When the extraction of a catalogued series leaves no row,
  \<open>process_series\<close> returns \<open>False\<close> and writes nothing; the loop of the pipeline
  counts one failure and goes on with the remaining series, and it ends with every
  series counted.
\<close>

theorem empty_input_is_counted_failure:
  "map_of indicators sid = Some (title, category) \<Longrightarrow>
   extract_series fetch sid = Some ([], info) \<Longrightarrow>
   transform_data None = None
   \<and> transform_data (Some []) = None
   \<and> process_series fetch load sid db = (Inr False, db)
   \<and> pipeline_loop fetch load (sid # rest) (success_count, fail_count) db =
       pipeline_loop fetch load rest (success_count, fail_count + 1) db
   \<and> (\<exists>s f db'. pipeline_loop fetch load (sid # rest) (success_count, fail_count) db = ((s, f), db')
         \<and> s + f = success_count + fail_count + 1 + length rest)"
proof -
  assume a: "map_of indicators sid = Some (title, category)"
    and b: "extract_series fetch sid = Some ([], info)"
  have t: "transform_data None = None" "transform_data (Some []) = None"
    by (simp_all add: transform_data_def)
  have p: "process_series fetch load sid db = (Inr False, db)"
    by (simp add: process_series_def a b t)
  have l: "pipeline_loop fetch load (sid # rest) (success_count, fail_count) db =
       pipeline_loop fetch load rest (success_count, fail_count + 1) db"
    by (simp add: p)
  obtain s f db' where
    r: "pipeline_loop fetch load (sid # rest) (success_count, fail_count) db = ((s, f), db')"
    by (metis surj_pair)
  from pipeline_loop_counts [OF r] have "s + f = success_count + fail_count + 1 + length rest"
    by simp
  with t p l r show ?thesis by blast
qed

theorem empty_input_is_counted_failure_witness:
  "map_of indicators ''GDP'' = Some (''Gross Domestic Product'', ''Output & Growth'')
   \<and> extract_series (\<lambda>sid. Inr ([obs 1 NaN], ())) ''GDP'' = Some ([], ())
   \<and> process_series (\<lambda>sid. Inr ([obs 1 NaN], ())) (\<lambda>sid info category df db. (None, df # db))
        ''GDP'' [] = (Inr False, [])
   \<and> pipeline_loop (\<lambda>sid. Inr ([obs 1 NaN], ())) (\<lambda>sid info category df db. (None, df # db))
        [''GDP'', ''INDPRO''] (0, 0) [] = ((0, 2), [])"
proof -
  let ?fetch = "\<lambda>sid :: string. (Inr ([obs 1 NaN], ()) :: exn + (observation list \<times> unit))"
  let ?load = "\<lambda>(sid :: string) (info :: unit) (category :: string) (df :: enriched list)
                 (db :: enriched list list). (None :: exn option, df # db)"
  have a: "map_of indicators ''GDP'' = Some (''Gross Domestic Product'', ''Output & Growth'')"
    by (rule map_of_GDP)
  have a2: "map_of indicators ''INDPRO'' = Some (''Industrial Production Index'', ''Output & Growth'')"
    by (simp add: indicators_def)
  have b: "extract_series ?fetch sid = Some ([], ())" for sid
    by (simp add: extract_series_def obs_def isna_def)
  note gdp = empty_input_is_counted_failure [OF a b, where load = ?load]
  note ind = empty_input_is_counted_failure [OF a2 b, where load = ?load]
  have "pipeline_loop ?fetch ?load [''GDP'', ''INDPRO''] (0, 0) [] = ((0, 2), [])"
    using gdp [of "[]" "[''INDPRO'']" 0 0] ind [of "[]" "[]" 0 1] by simp
  then show ?thesis
    using a b gdp [of "[]" "[]" 0 0] by simp
qed

section \<open>Two scenarios\<close>

lemma round_ex: "map round_2dp [100, 105, 331 / 3] = [100, 105, 110.33]"
  apply (simp add: round_2dp_def round_def)
  done

lemma rolling3_ex: "rolling_mean 3 1 [Fin 100, Fin 110, Fin 121] = [Fin 100, Fin 105, Fin (331 / 3)]"
  by (simp add: rolling_mean_def prep_values_def window_at_def isna_def isinf_def fsum_def upt3 Let_def)

lemma mom_ex7: "mom_change_col [Fin 100, Fin 110, Fin 121] = [NaN, Fin 10, Fin 10]"
  by (simp add: mom_change_col_def times100_def pct_change_def shift_def fsub_def)

text \<open>
  Claim C7. For the values 100, 110, 121 on three consecutive dates the month-over-month
  change is missing, 10, 10 and the three-period rolling average is 100, 105 and 331/3,
  which is 110.33 when written with two decimals.
\<close>

theorem scenario_100_110_121:
  "map_option (map mom_change)
     (transform_data (Some [obs 1 (Fin 100), obs 2 (Fin 110), obs 3 (Fin 121)]))
     = Some [NaN, Fin 10, Fin 10]
   \<and> map_option (map rolling_avg_3m)
     (transform_data (Some [obs 1 (Fin 100), obs 2 (Fin 110), obs 3 (Fin 121)]))
     = Some [Fin 100, Fin 105, Fin (331 / 3)]
   \<and> map round_2dp [100, 105, 331 / 3] = [100, 105, 110.33]"
proof -
  let ?rows = "[obs 1 (Fin 100), obs 2 (Fin 110), obs 3 (Fin 121)]"
  have s: "sort_key observation_date ?rows = ?rows"
    by (simp add: obs_def)
  have vs: "map obs_value ?rows = [Fin 100, Fin 110, Fin 121]"
    by (simp add: obs_def)
  have m: "map mom_change (enrich ?rows) = [NaN, Fin 10, Fin 10]"
    unfolding enrich_def Let_def vs mom_ex7 by (simp add: upt3)
  have r: "map rolling_avg_3m (enrich ?rows) = [Fin 100, Fin 105, Fin (331 / 3)]"
    unfolding enrich_def Let_def vs rolling3_ex by (simp add: upt3)
  have t: "transform_data (Some ?rows) = Some (map replace_inf_row (enrich ?rows))"
    using transform_data_Some [of ?rows] unfolding s by simp
  have m': "map mom_change (map replace_inf_row (enrich ?rows))
            = map replace_inf (map mom_change (enrich ?rows))"
    by (simp add: replace_inf_row_def)
  have r': "map rolling_avg_3m (map replace_inf_row (enrich ?rows))
            = map replace_inf (map rolling_avg_3m (enrich ?rows))"
    by (simp add: replace_inf_row_def)
  show ?thesis
    unfolding t option.map m' r' m r by (intro conjI round_ex) simp_all
qed

lemma mom_single: "mom_change_col [v] = [NaN]"
  by (simp add: mom_change_col_def times100_def pct_change_def shift_def fsub_def)

lemma yoy_single: "yoy_change_col [v] = [NaN]"
  by (simp add: yoy_change_col_def times100_def pct_change_def shift_def fsub_def)

lemma window_single: "0 < w \<Longrightarrow> window_at w [v] 0 = [v]"
  by (simp add: window_at_def)

lemma rolling_single:
  assumes "0 < w" and "m \<le> 1" and "v \<noteq> NaN" and "isdouble v"
  shows "rolling_mean w m [v] = [replace_inf v]"
proof (cases v)
  case (Fin c)
  then have c: "\<bar>c\<bar> \<le> max_double" using assms(4) by simp
  have s: "fsum [Fin c] = Fin c"
    using c by (simp add: fsum_def fin_Fin)
  have d: "fdiv (Fin c) (Fin 1) = Fin c"
    using c by (simp add: fin_Fin)
  show ?thesis
    using assms(1,2) Fin
    by (simp add: rolling_mean_def prep_values_def window_single isna_def isinf_def s d
          Let_def replace_inf_def fin_Fin [OF c])
next
  case PInf
  then show ?thesis
    using assms(1)
    by (simp add: rolling_mean_def prep_values_def window_single isna_def isinf_def
          Let_def replace_inf_def)
next
  case NInf
  then show ?thesis
    using assms(1)
    by (simp add: rolling_mean_def prep_values_def window_single isna_def isinf_def
          Let_def replace_inf_def)
next
  case NaN
  then show ?thesis using assms(3) by simp
qed

lemma z_single: "z_score_col [v] = [Fin 0]"
  by (simp add: z_score_col_def std_def var_def fgt_def Let_def)

lemma rank_single: "v \<noteq> NaN \<Longrightarrow> percentile_rank_col [v] = [Fin 100]"
  by (simp add: percentile_rank_col_def times100_def rank_pct_def avg_rank_def isna_def Let_def)

text \<open>
  A single observation whose value is infinite: the value of the output row and both
  rolling averages are missing, so the rolling averages do not equal the observation's
  value.
\<close>

theorem single_infinite_observation:
  "map_option (map (\<lambda>r. (obs_value r, rolling_avg_3m r, rolling_avg_12m r)))
     (transform_data (Some [obs 1 PInf])) = Some [(NaN, NaN, NaN)]"
proof -
  have r: "rolling_mean 3 (Suc 0) [PInf] = [NaN]" "rolling_mean 12 (Suc 0) [PInf] = [NaN]"
    using rolling_single [of 3 "Suc 0" PInf] rolling_single [of 12 "Suc 0" PInf]
    by (simp_all add: replace_inf_def)
  show ?thesis
    by (simp add: transform_data_def enrich_def Let_def obs_def r replace_inf_row_def
          replace_inf_def)
qed

text \<open>
  Claim C6, amended. A frame of exactly one observation gives exactly one row: both
  percent changes are missing, the z-score is 0, the percentile rank is 100, and both
  rolling averages equal the value of the output row, which is the observation's value
  when that is finite and the missing marker when it is infinite.
\<close>

theorem single_observation:
  "obs_value r = v \<Longrightarrow> v \<noteq> NaN \<Longrightarrow> isdouble v \<Longrightarrow>
   transform_data (Some [r]) =
     Some [\<lparr>observation_date = observation_date r, obs_value = replace_inf v,
            series_id = series_id r,
            mom_change = NaN, yoy_change = NaN,
            rolling_avg_3m = replace_inf v, rolling_avg_12m = replace_inf v,
            z_score = Fin 0, percentile_rank = Fin 100\<rparr>]"
proof -
  assume v: "obs_value r = v" and n: "v \<noteq> NaN" and d: "isdouble v"
  have r3: "rolling_mean 3 (Suc 0) [v] = [replace_inf v]"
    by (rule rolling_single [OF _ _ n d]) simp_all
  have r12: "rolling_mean 12 (Suc 0) [v] = [replace_inf v]"
    by (rule rolling_single [OF _ _ n d]) simp_all
  have rr: "replace_inf (replace_inf v) = replace_inf v"
    by (simp add: replace_inf_def)
  show ?thesis
    by (simp add: transform_data_def enrich_def Let_def v mom_single yoy_single r3 r12
          z_single rank_single [OF n] replace_inf_row_def rr)
qed

theorem single_observation_witness:
  "obs_value (obs 7 (Fin 42)) = Fin 42 \<and> Fin 42 \<noteq> NaN \<and> isdouble (Fin 42) \<and>
   transform_data (Some [obs 7 (Fin 42)]) =
     Some [\<lparr>observation_date = 7, obs_value = Fin 42, series_id = ''GDP'',
            mom_change = NaN, yoy_change = NaN,
            rolling_avg_3m = Fin 42, rolling_avg_12m = Fin 42,
            z_score = Fin 0, percentile_rank = Fin 100\<rparr>]"
  using single_observation [of "obs 7 (Fin 42)" "Fin 42"] max_double_ge
  by (simp add: obs_def)

section \<open>Percentile rank\<close>

lemma length_filter_disjoint:
  "(\<And>x. P x \<Longrightarrow> \<not> Q x) \<Longrightarrow> length (filter P xs) + length (filter Q xs) \<le> length xs"
  by (induction xs) auto

lemma length_filter_eq_pos: "v \<in> set xs \<Longrightarrow> 0 < length (filter (\<lambda>x. x = v) xs)"
  by (induction xs) auto

lemma avg_rank_arith:
  fixes l e :: real
  assumes "0 \<le> l" and "1 \<le> e"
  shows "1 \<le> l + (e + 1) / 2" and "l + (e + 1) / 2 \<le> l + e"
  using assms by (simp_all add: field_simps)

lemma avg_rank_bounds:
  assumes "v \<in> set xs"
  shows "1 \<le> avg_rank xs v" and "avg_rank xs v \<le> real (length xs)"
proof -
  let ?L = "length (filter (\<lambda>x. flt x v) xs)"
  let ?E = "length (filter (\<lambda>x. x = v) xs)"
  have E: "1 \<le> ?E" using length_filter_eq_pos [OF assms] by linarith
  have LE: "?L + ?E \<le> length xs"
    by (rule length_filter_disjoint) auto
  have r: "avg_rank xs v = real ?L + (real ?E + 1) / 2"
    by (simp add: avg_rank_def)
  from E have E': "1 \<le> real ?E" by linarith
  have L': "0 \<le> real ?L" by simp
  from avg_rank_arith(1) [OF L' E'] show "1 \<le> avg_rank xs v" unfolding r .
  from avg_rank_arith(2) [OF L' E'] have "avg_rank xs v \<le> real ?L + real ?E" unfolding r .
  then have "avg_rank xs v \<le> real (?L + ?E)" by simp
  also have "\<dots> \<le> real (length xs)" using LE by simp
  finally show "avg_rank xs v \<le> real (length xs)" .
qed

lemma filter_not_isna: "list_all (\<lambda>v. \<not> isna v) vs \<Longrightarrow> filter (\<lambda>v. \<not> isna v) vs = vs"
  by (induction vs) auto

lemma percentile_rank_col_nth:
  assumes "list_all (\<lambda>v. \<not> isna v) vs" and "i < length vs"
  shows "percentile_rank_col vs ! i = Fin (avg_rank vs (vs ! i) / real (length vs) * 100)"
proof -
  let ?n = "real (length vs)"
  let ?r = "avg_rank vs (vs ! i)"
  have n: "0 < ?n" using assms(2) by auto
  have mem: "vs ! i \<in> set vs" using assms(2) by (rule nth_mem)
  have lo: "1 \<le> ?r" and hi: "?r \<le> ?n"
    using avg_rank_bounds [OF mem] by simp_all
  have q0: "0 \<le> ?r / ?n" using lo n by simp
  have q1: "?r / ?n \<le> 1" using hi n by simp
  have f1: "fdiv (Fin ?r) (Fin ?n) = Fin (?r / ?n)"
  proof -
    have "\<bar>?r / ?n\<bar> \<le> 1000000" using q0 q1 by linarith
    then show ?thesis using n by simp
  qed
  have f2: "fmul (Fin (?r / ?n)) (Fin 100) = Fin (?r / ?n * 100)"
  proof -
    define q where "q = ?r / ?n"
    have "0 \<le> q" "q \<le> 1" using q0 q1 by (simp_all only: q_def)
    then have "\<bar>q * 100\<bar> \<le> 1000000" by linarith
    then have "fmul (Fin q) (Fin 100) = Fin (q * 100)" by simp
    then show ?thesis by (simp only: q_def)
  qed
  have na: "\<not> isna (vs ! i)" using assms by (simp add: list_all_length)
  have "percentile_rank_col vs ! i = fmul (fdiv (Fin ?r) (Fin ?n)) (Fin 100)"
    using assms(2) na
    by (simp add: percentile_rank_col_def times100_def rank_pct_def Let_def
          filter_not_isna [OF assms(1)] del: fdiv.simps fmul.simps)
  then show ?thesis by (simp only: f1 f2)
qed

lemma percentile_rank_replace_inf_row:
  "percentile_rank (replace_inf_row r) = replace_inf (percentile_rank r)"
  by (simp add: replace_inf_row_def)

lemma values_sorted_no_na:
  "list_all (\<lambda>r. \<not> isna (obs_value r)) rows \<Longrightarrow>
   list_all (\<lambda>v. \<not> isna v) (map obs_value (sort_key observation_date rows))"
  by (simp add: list_all_iff)

lemma pr_ex: "percentile_rank_col [Fin 1, Fin 2, Fin 2, Fin 9] = [Fin 25, Fin 62.5, Fin 62.5, Fin 100]"
  by (simp add: percentile_rank_col_def times100_def rank_pct_def avg_rank_def isna_def Let_def)

lemma upt4: "[0..<4] = [0, 1, 2, 3]"
  by (simp add: upt_rec)

text \<open>
  Claim C10. For a non-empty frame of \<open>n\<close> observations without missing values, every
  percentile rank of the output is a number in the half-open interval from 0 (excluded)
  to 100 (included), and it is at least \<open>100 / n\<close>: a rank of 0 is never produced.
\<close>

theorem percentile_rank_range:
  assumes "rows \<noteq> []" and "list_all (\<lambda>r. \<not> isna (obs_value r)) rows"
  shows "\<exists>out. transform_data (Some rows) = Some out \<and> length out = length rows
    \<and> (\<forall>i < length rows. \<exists>p. percentile_rank (out ! i) = Fin p
          \<and> 0 < p \<and> 100 / real (length rows) \<le> p \<and> p \<le> 100)"
proof -
  let ?df = "sort_key observation_date rows"
  let ?vs = "map obs_value ?df"
  let ?out = "map replace_inf_row (enrich ?df)"
  let ?n = "real (length rows)"
  have out: "transform_data (Some rows) = Some ?out"
    by (rule transform_data_Some [OF assms(1)])
  have len: "length ?out = length rows"
    by (simp add: length_enrich)
  have n: "0 < ?n" using assms(1) by simp
  have na: "list_all (\<lambda>v. \<not> isna v) ?vs"
    by (rule values_sorted_no_na [OF assms(2)])
  have "\<exists>p. percentile_rank (?out ! i) = Fin p \<and> 0 < p \<and> 100 / ?n \<le> p \<and> p \<le> 100"
    if i: "i < length rows" for i
  proof -
    let ?r = "avg_rank ?vs (?vs ! i)"
    have iv: "i < length ?vs" using i by simp
    have mem: "?vs ! i \<in> set ?vs" using iv by (rule nth_mem)
    have lo: "1 \<le> ?r" and hi: "?r \<le> ?n"
      using avg_rank_bounds [OF mem] by simp_all
    have "percentile_rank (?out ! i) = replace_inf (percentile_rank_col ?vs ! i)"
      using i by (simp add: length_enrich enrich_nth percentile_rank_replace_inf_row)
    also have "\<dots> = Fin (?r / ?n * 100)"
      using percentile_rank_col_nth [OF na iv] by simp
    finally have eq: "percentile_rank (?out ! i) = Fin (?r / ?n * 100)" .
    have b1: "100 / ?n \<le> ?r / ?n * 100" using lo n by (simp add: field_simps)
    have b2: "?r / ?n * 100 \<le> 100" using hi n by (simp add: field_simps)
    have "0 < 100 / ?n" using n by simp
    with b1 have b0: "0 < ?r / ?n * 100" by linarith
    from eq b0 b1 b2 show ?thesis by blast
  qed
  with out len show ?thesis by blast
qed

theorem percentile_rank_range_witness:
  "[obs 1 (Fin 1), obs 2 (Fin 2), obs 3 (Fin 2), obs 4 (Fin 9)] \<noteq> []
   \<and> list_all (\<lambda>r. \<not> isna (obs_value r))
        [obs 1 (Fin 1), obs 2 (Fin 2), obs 3 (Fin 2), obs 4 (Fin 9)]
   \<and> (\<exists>out. transform_data
          (Some [obs 1 (Fin 1), obs 2 (Fin 2), obs 3 (Fin 2), obs 4 (Fin 9)]) = Some out
        \<and> map percentile_rank out = [Fin 25, Fin 62.5, Fin 62.5, Fin 100]
        \<and> (\<exists>p. percentile_rank (out ! 0) = Fin p \<and> 0 < p \<and> 100 / 4 \<le> p \<and> p \<le> 100))"
proof -
  let ?rows = "[obs 1 (Fin 1), obs 2 (Fin 2), obs 3 (Fin 2), obs 4 (Fin 9)]"
  have ne: "?rows \<noteq> []" by simp
  have na: "list_all (\<lambda>r. \<not> isna (obs_value r)) ?rows"
    by (simp add: obs_def isna_def)
  from percentile_rank_range [OF ne na] obtain out where
    out: "transform_data (Some ?rows) = Some out"
    and rng: "\<forall>i < length ?rows. \<exists>p. percentile_rank (out ! i) = Fin p
          \<and> 0 < p \<and> 100 / real (length ?rows) \<le> p \<and> p \<le> 100"
    by blast
  from rng have r0: "\<exists>p. percentile_rank (out ! 0) = Fin p \<and> 0 < p \<and> 100 / 4 \<le> p \<and> p \<le> 100"
    by simp
  have s: "sort_key observation_date ?rows = ?rows"
    by (simp add: obs_def)
  have vs: "map obs_value ?rows = [Fin 1, Fin 2, Fin 2, Fin 9]"
    by (simp add: obs_def)
  have e: "map percentile_rank (enrich ?rows) = [Fin 25, Fin 62.5, Fin 62.5, Fin 100]"
    unfolding enrich_def Let_def vs pr_ex by (simp add: upt4)
  have "out = map replace_inf_row (enrich ?rows)"
    using out unfolding transform_data_Some [OF ne] s by simp
  then have "map percentile_rank out = map replace_inf (map percentile_rank (enrich ?rows))"
    by (simp add: percentile_rank_replace_inf_row)
  then have m: "map percentile_rank out = [Fin 25, Fin 62.5, Fin 62.5, Fin 100]"
    unfolding e by simp
  show ?thesis
    using ne na out m r0 by (intro conjI exI [of _ out]) simp_all
qed

section \<open>Rolling averages\<close>















section \<open>Percent changes\<close>

lemma times100_pct_change_nth:
  "i < length vs \<Longrightarrow>
   times100 (pct_change p vs) ! i =
     (if i < p then NaN else percent_change (vs ! i) (vs ! (i - p)))"
  by (simp add: times100_def length_pct_change pct_change_nth percent_change_def)

lemma isna_replace_inf: "isna (replace_inf v) \<longleftrightarrow> \<not> isfinite v"
  by (cases v) (simp_all add: isna_def replace_inf_def)

lemma percent_change_zero_base: "\<not> isfinite (percent_change a (Fin 0))"
  by (cases a) (simp_all add: percent_change_def fsub_def)

lemma percent_change_finite:
  assumes "b \<noteq> 0" and "\<bar>(a / b - 1) * 100\<bar> \<le> max_double"
  shows "percent_change (Fin a) (Fin b) = Fin ((a / b - 1) * 100)"
proof -
  define q where "q = a / b"
  have m: "1000000 \<le> max_double" by (rule max_double_ge)
  have h: "\<bar>(q - 1) * 100\<bar> \<le> max_double" using assms(2) by (simp add: q_def)
  have "\<bar>(q - 1) * 100\<bar> = \<bar>q - 1\<bar> * 100" by (simp only: abs_mult abs_numeral)
  with h have q1: "\<bar>q - 1\<bar> * 100 \<le> max_double" by simp
  define e where "e = \<bar>q - 1\<bar>"
  have e0: "0 \<le> e" by (simp add: e_def)
  have e1: "e * 100 \<le> max_double" using q1 by (simp add: e_def)
  have qe: "\<bar>q\<bar> \<le> e + 1" unfolding e_def by linarith
  from e0 e1 have "e \<le> max_double" by linarith
  then have b1: "\<bar>q - 1\<bar> \<le> max_double" by (simp add: e_def)
  from e0 e1 qe m have b0: "\<bar>q\<bar> \<le> max_double" by linarith
  have d: "fdiv (Fin a) (Fin b) = Fin q"
    using assms(1) by (simp add: q_def fin_Fin [OF b0 [unfolded q_def]])
  have s: "fsub (Fin q) (Fin 1) = Fin (q - 1)"
    using fin_Fin [OF b1] by (simp add: fsub_def)
  have t: "fmul (Fin (q - 1)) (Fin 100) = Fin ((q - 1) * 100)"
    by (simp only: fmul.simps fin_Fin [OF h])
  show ?thesis
    unfolding percent_change_def d s t by (simp add: q_def)
qed

text \<open>
  The quotient of two finite doubles can overflow: the percent change of \<open>2 ^ 512\<close> from
  the base \<open>2 ^ -513\<close> is infinite.
\<close>

lemma percent_change_overflow:
  "percent_change (Fin (2 ^ 512)) (Fin (1 / 2 ^ 513)) = PInf"
proof -
  have q: "(2::real) ^ 512 / (1 / 2 ^ 513) = 2 ^ 1025"
    by (simp add: power_add [symmetric])
  have "(2 - 1 / 2 ^ 52) * (2::real) ^ 1023 < 2 * 2 ^ 1023"
    by (intro mult_strict_right_mono) simp_all
  also have "\<dots> < 4 * (2::real) ^ 1023" by simp
  also have "\<dots> = 2 ^ 1025" by (simp add: power_add [of 2 2 1023, simplified])
  finally have "max_double < 2 ^ 1025" by (simp add: max_double_def)
  then have f: "fin (2 ^ 1025) = PInf" by (simp add: fin_def)
  show ?thesis
    unfolding percent_change_def by (simp only: fdiv.simps q f) (simp add: fsub_def)
qed

lemma change_replace_inf_row:
  "mom_change (replace_inf_row r) = replace_inf (mom_change r)"
  "yoy_change (replace_inf_row r) = replace_inf (yoy_change r)"
  by (simp_all add: replace_inf_row_def)

lemma upt6: "[0..<6] = [0, 1, 2, 3, 4, 5]"
  by (simp add: upt_rec)

text \<open>
  The month-over-month change is not defined at every row after the first: after a
  value of zero the change is infinite (or \<open>0 / 0\<close>) and the output cell is missing. Here
  row 2 follows the value 0 of row 1.
\<close>

theorem mom_change_missing_after_zero:
  "map_option (map (\<lambda>r. isna (mom_change r)))
     (transform_data (Some [obs 1 (Fin 5), obs 2 (Fin 0), obs 3 (Fin 7)]))
   = Some [True, False, True]"
proof -
  let ?rows = "[obs 1 (Fin 5), obs 2 (Fin 0), obs 3 (Fin 7)]"
  have s: "sort_key observation_date ?rows = ?rows"
    by (simp add: obs_def)
  have vs: "map obs_value ?rows = [Fin 5, Fin 0, Fin 7]"
    by (simp add: obs_def)
  have c: "mom_change_col [Fin 5, Fin 0, Fin 7] = [NaN, Fin (- 100), PInf]"
    by (simp add: mom_change_col_def times100_def pct_change_def shift_def fsub_def)
  have m: "map mom_change (enrich ?rows) = [NaN, Fin (- 100), PInf]"
    unfolding enrich_def Let_def vs c by (simp add: upt3)
  have t: "transform_data (Some ?rows) = Some (map replace_inf_row (enrich ?rows))"
    using transform_data_Some [of ?rows] unfolding s by simp
  have m': "map (\<lambda>r. isna (mom_change r)) (map replace_inf_row (enrich ?rows))
            = map (\<lambda>v. isna (replace_inf v)) (map mom_change (enrich ?rows))"
    by (simp add: replace_inf_row_def)
  show ?thesis
    unfolding t option.map m' m by (simp add: isna_def replace_inf_def)
qed

text \<open>
  Claim C1, amended. For every non-empty frame without missing values, with \<open>vs\<close> the
  values in date order and
  \<open>L\<close> equal to 12 for more than 12 observations and to 4 otherwise: the
  month-over-month change is missing at row 0 and, at a row \<open>i \<ge> 1\<close>, exactly when the
  percent change of the value from the value of row \<open>i - 1\<close> is not a finite number; the
  year-over-year change is missing at the rows \<open>0 .. L - 1\<close> and, at a row \<open>i \<ge> L\<close>,
  exactly when the percent change from the value of row \<open>i - L\<close> is not a finite number.
  The percent change from a base of zero is never a finite number; from a non-zero
  finite base to a finite value it is a finite number when it is within half of the
  range of a double.
\<close>

theorem change_columns_missing:
  assumes "rows \<noteq> []"
    and "list_all (\<lambda>r. \<not> isna (obs_value r)) rows"
    and "vs = map obs_value (sort_key observation_date rows)"
    and "L = (if 12 < length rows then 12 else 4)"
  shows "\<exists>out. transform_data (Some rows) = Some out \<and> length out = length rows
    \<and> (\<forall>i < length rows.
          (isna (mom_change (out ! i)) \<longleftrightarrow>
             i = 0 \<or> \<not> isfinite (percent_change (vs ! i) (vs ! (i - 1))))
          \<and> (isna (yoy_change (out ! i)) \<longleftrightarrow>
             i < L \<or> \<not> isfinite (percent_change (vs ! i) (vs ! (i - L)))))
    \<and> (\<forall>a. \<not> isfinite (percent_change a (Fin 0)))
    \<and> (\<forall>a b. b \<noteq> 0 \<longrightarrow> \<bar>(a / b - 1) * 100\<bar> \<le> max_double / 2 \<longrightarrow>
          isfinite (percent_change (Fin a) (Fin b)))"
proof -
  let ?df = "sort_key observation_date rows"
  let ?out = "map replace_inf_row (enrich ?df)"
  have out: "transform_data (Some rows) = Some ?out"
    by (rule transform_data_Some [OF assms(1)])
  have len: "length ?out = length rows"
    by (simp add: length_enrich)
  have lv: "length vs = length rows"
    by (simp add: assms(3))
  have y: "yoy_change_col vs = times100 (pct_change L vs)"
    by (simp add: yoy_change_col_def lv assms(4))
  have rows: "(isna (mom_change (?out ! i)) \<longleftrightarrow>
             i = 0 \<or> \<not> isfinite (percent_change (vs ! i) (vs ! (i - 1))))
          \<and> (isna (yoy_change (?out ! i)) \<longleftrightarrow>
             i < L \<or> \<not> isfinite (percent_change (vs ! i) (vs ! (i - L))))"
    if i: "i < length rows" for i
  proof -
    have iv: "i < length vs" using i lv by simp
    have em: "mom_change (?out ! i) = replace_inf (mom_change_col vs ! i)"
      using i by (simp add: length_enrich enrich_nth change_replace_inf_row assms(3))
    have ey: "yoy_change (?out ! i) = replace_inf (yoy_change_col vs ! i)"
      using i by (simp add: length_enrich enrich_nth change_replace_inf_row assms(3))
    have a: "isna (mom_change (?out ! i)) \<longleftrightarrow>
             i = 0 \<or> \<not> isfinite (percent_change (vs ! i) (vs ! (i - 1)))"
      unfolding em mom_change_col_def isna_replace_inf
      by (simp add: times100_pct_change_nth [OF iv])
    have b: "isna (yoy_change (?out ! i)) \<longleftrightarrow>
             i < L \<or> \<not> isfinite (percent_change (vs ! i) (vs ! (i - L)))"
      unfolding ey y isna_replace_inf
      by (simp add: times100_pct_change_nth [OF iv])
    from a b show ?thesis by blast
  qed
  have fin: "isfinite (percent_change (Fin a) (Fin b))"
    if "b \<noteq> 0" "\<bar>(a / b - 1) * 100\<bar> \<le> max_double / 2" for a b :: real
  proof -
    have h: "max_double / 2 \<le> max_double" using max_double_pos by simp
    have "\<bar>(a / b - 1) * 100\<bar> \<le> max_double"
      by (rule order_trans [OF that(2) h])
    from percent_change_finite [OF that(1) this] show ?thesis by simp
  qed
  show ?thesis
    using out len rows percent_change_zero_base fin by blast
qed

theorem change_columns_missing_witness:
  "[obs 1 (Fin 5), obs 2 (Fin 0), obs 3 (Fin 7), obs 4 (Fin 1), obs 5 (Fin 2), obs 6 (Fin 3)] \<noteq> []
   \<and> list_all (\<lambda>r. \<not> isna (obs_value r))
        [obs 1 (Fin 5), obs 2 (Fin 0), obs 3 (Fin 7), obs 4 (Fin 1), obs 5 (Fin 2),
         obs 6 (Fin 3)]
   \<and> [Fin 5, Fin 0, Fin 7, Fin 1, Fin 2, Fin 3] = map obs_value (sort_key observation_date
        [obs 1 (Fin 5), obs 2 (Fin 0), obs 3 (Fin 7), obs 4 (Fin 1), obs 5 (Fin 2),
         obs 6 (Fin 3)])
   \<and> (4::nat) = (if 12 < length
        [obs 1 (Fin 5), obs 2 (Fin 0), obs 3 (Fin 7), obs 4 (Fin 1), obs 5 (Fin 2),
         obs 6 (Fin 3)] then 12 else 4)
   \<and> (\<exists>out. transform_data (Some
        [obs 1 (Fin 5), obs 2 (Fin 0), obs 3 (Fin 7), obs 4 (Fin 1), obs 5 (Fin 2),
         obs 6 (Fin 3)]) = Some out
        \<and> isna (mom_change (out ! 0)) \<and> \<not> isna (mom_change (out ! 1))
        \<and> isna (mom_change (out ! 2)) \<and> \<not> isna (mom_change (out ! 3))
        \<and> isna (yoy_change (out ! 3)) \<and> \<not> isna (yoy_change (out ! 4))
        \<and> isna (yoy_change (out ! 5)))"
proof -
  let ?rows = "[obs 1 (Fin 5), obs 2 (Fin 0), obs 3 (Fin 7), obs 4 (Fin 1), obs 5 (Fin 2),
         obs 6 (Fin 3)]"
  let ?vs = "[Fin 5, Fin 0, Fin 7, Fin 1, Fin 2, Fin 3]"
  have ne: "?rows \<noteq> []" by simp
  have vs: "?vs = map obs_value (sort_key observation_date ?rows)"
    by (simp add: obs_def)
  have na: "list_all (\<lambda>r. \<not> isna (obs_value r)) ?rows"
    by (simp add: obs_def isna_def)
  have l: "(4::nat) = (if 12 < length ?rows then 12 else 4)" by simp
  from change_columns_missing [OF ne na vs l] obtain out where
    out: "transform_data (Some ?rows) = Some out"
    and r: "\<forall>i < length ?rows.
          (isna (mom_change (out ! i)) \<longleftrightarrow>
             i = 0 \<or> \<not> isfinite (percent_change (?vs ! i) (?vs ! (i - 1))))
          \<and> (isna (yoy_change (out ! i)) \<longleftrightarrow>
             i < 4 \<or> \<not> isfinite (percent_change (?vs ! i) (?vs ! (i - 4))))"
    by blast
  have pc: "percent_change (Fin 0) (Fin 5) = Fin (- 100)"
    "\<not> isfinite (percent_change (Fin 7) (Fin 0))"
    "percent_change (Fin 1) (Fin 7) = Fin (- 600 / 7)"
    "percent_change (Fin 2) (Fin 5) = Fin (- 60)"
    "\<not> isfinite (percent_change (Fin 3) (Fin 0))"
    by (simp_all add: percent_change_def fsub_def)
  have m0: "isna (mom_change (out ! 0))" using r [rule_format, of 0] by simp
  have m1: "\<not> isna (mom_change (out ! 1))" using r [rule_format, of 1] by (simp add: pc)
  have m2: "isna (mom_change (out ! 2))" using r [rule_format, of 2] by (simp add: pc)
  have m3: "\<not> isna (mom_change (out ! 3))" using r [rule_format, of 3] by (simp add: pc)
  have y3: "isna (yoy_change (out ! 3))" using r [rule_format, of 3] by simp
  have y4: "\<not> isna (yoy_change (out ! 4))" using r [rule_format, of 4] by (simp add: pc)
  have y5: "isna (yoy_change (out ! 5))" using r [rule_format, of 5] by (simp add: pc)
  show ?thesis
    using ne na vs out m0 m1 m2 m3 y3 y4 y5 by (intro conjI exI [of _ out]) simp_all
qed

section \<open>A series of equal values\<close>

lemma avg_rank_replicate:
  "avg_rank (replicate n v) v = (real n + 1) / 2"
  by (simp add: avg_rank_def)

lemma percentile_rank_col_replicate:
  assumes "v \<noteq> NaN" and "i < n"
  shows "percentile_rank_col (replicate n v) ! i = Fin (50 * (real n + 1) / real n)"
proof -
  have na: "list_all (\<lambda>x. \<not> isna x) (replicate n v)"
    using assms(1) by (simp add: list_all_iff isna_def)
  have i: "i < length (replicate n v)" using assms(2) by simp
  have n: "real n \<noteq> 0" using assms(2) by auto
  have "(real n + 1) / 2 / real n * 100 = 50 * (real n + 1) / real n"
    using n by (simp add: field_simps)
  then show ?thesis
    using percentile_rank_col_nth [OF na i] assms(2)
    by (simp only: avg_rank_replicate nth_replicate length_replicate)
qed

lemma map_const_replicate:
  "list_all (\<lambda>r. f r = v) rows \<Longrightarrow> map f rows = replicate (length rows) v"
  by (induction rows) simp_all

lemma values_all_equal:
  assumes "list_all (\<lambda>r. obs_value r = v) rows"
  shows "map obs_value (sort_key observation_date rows) = replicate (length rows) v"
proof -
  have "list_all (\<lambda>r. obs_value r = v) (sort_key observation_date rows)"
    using assms by (simp add: list_all_iff)
  from map_const_replicate [OF this] show ?thesis by simp
qed

text \<open>
  The percentile rank of a series of equal values is not 50: two equal values share the
  average rank 1.5 of 2, which is 75 percent.
\<close>

theorem equal_values_rank_not_50:
  "map_option (map percentile_rank)
     (transform_data (Some [obs 1 (Fin 5), obs 2 (Fin 5)])) = Some [Fin 75, Fin 75]"
proof -
  let ?rows = "[obs 1 (Fin 5), obs 2 (Fin 5)]"
  have s: "sort_key observation_date ?rows = ?rows"
    by (simp add: obs_def)
  have vs: "map obs_value ?rows = [Fin 5, Fin 5]"
    by (simp add: obs_def)
  have c: "percentile_rank_col [Fin 5, Fin 5] = [Fin 75, Fin 75]"
    by (simp add: percentile_rank_col_def times100_def rank_pct_def avg_rank_def isna_def Let_def)
  have m: "map percentile_rank (enrich ?rows) = [Fin 75, Fin 75]"
    unfolding enrich_def Let_def vs c by (simp add: upt_rec)
  have t: "transform_data (Some ?rows) = Some (map replace_inf_row (enrich ?rows))"
    using transform_data_Some [of ?rows] unfolding s by simp
  have m': "map percentile_rank (map replace_inf_row (enrich ?rows))
            = map replace_inf (map percentile_rank (enrich ?rows))"
    by (simp add: replace_inf_row_def)
  show ?thesis
    unfolding t option.map m' m by simp
qed

text \<open>
  Claim C2, amended. For a non-empty frame of \<open>n\<close> observations whose values are all
  equal (and not missing), the percentile rank is \<open>50 (n + 1) / n\<close> at every row: 100 for
  one row, 75 for two, never 50.
\<close>

theorem equal_values_percentile_rank:
  assumes "rows \<noteq> []" and "list_all (\<lambda>r. obs_value r = v) rows" and "v \<noteq> NaN"
  shows "\<exists>out. transform_data (Some rows) = Some out \<and> length out = length rows
    \<and> (\<forall>i < length rows.
          percentile_rank (out ! i)
            = Fin (50 * (real (length rows) + 1) / real (length rows)))"
proof -
  let ?df = "sort_key observation_date rows"
  let ?out = "map replace_inf_row (enrich ?df)"
  let ?n = "length rows"
  have out: "transform_data (Some rows) = Some ?out"
    by (rule transform_data_Some [OF assms(1)])
  have len: "length ?out = ?n"
    by (simp add: length_enrich)
  have vs: "map obs_value ?df = replicate ?n v"
    by (rule values_all_equal [OF assms(2)])
  have "percentile_rank (?out ! i) = Fin (50 * (real ?n + 1) / real ?n)"
    if i: "i < ?n" for i
  proof -
    have "percentile_rank (?out ! i) = replace_inf (percentile_rank_col (replicate ?n v) ! i)"
      using i by (simp add: length_enrich enrich_nth percentile_rank_replace_inf_row vs)
    then show ?thesis
      by (simp add: percentile_rank_col_replicate [OF assms(3) i])
  qed
  with out len show ?thesis by blast
qed

theorem equal_values_percentile_rank_witness:
  "[obs 1 (Fin 7), obs 2 (Fin 7), obs 3 (Fin 7), obs 4 (Fin 7)] \<noteq> []
   \<and> list_all (\<lambda>r. obs_value r = Fin 7)
        [obs 1 (Fin 7), obs 2 (Fin 7), obs 3 (Fin 7), obs 4 (Fin 7)]
   \<and> Fin 7 \<noteq> NaN
   \<and> (\<exists>out. transform_data
          (Some [obs 1 (Fin 7), obs 2 (Fin 7), obs 3 (Fin 7), obs 4 (Fin 7)]) = Some out
        \<and> percentile_rank (out ! 0) = Fin 62.5 \<and> percentile_rank (out ! 3) = Fin 62.5)"
proof -
  let ?rows = "[obs 1 (Fin 7), obs 2 (Fin 7), obs 3 (Fin 7), obs 4 (Fin 7)]"
  have ne: "?rows \<noteq> []" by simp
  have eq: "list_all (\<lambda>r. obs_value r = Fin 7) ?rows" by (simp add: obs_def)
  have nn: "Fin 7 \<noteq> NaN" by simp
  from equal_values_percentile_rank [OF ne eq nn] obtain out where
    out: "transform_data (Some ?rows) = Some out"
    and r: "\<forall>i < length ?rows. percentile_rank (out ! i)
              = Fin (50 * (real (length ?rows) + 1) / real (length ?rows))"
    by blast
  have r0: "percentile_rank (out ! 0) = Fin 62.5"
    using r [rule_format, of 0] by simp
  have r3: "percentile_rank (out ! 3) = Fin 62.5"
    using r [rule_format, of 3] by simp
  show ?thesis
    using ne eq out r0 r3 by (intro conjI exI [of _ out]) simp_all
qed

end
